theory Spec2Isabelle
  imports Main "HOL-Library.Multiset"
begin

section \<open>Errors\<close>

text \<open>
  Exceptions are values: a computation that can raise returns \<open>error + 'a\<close>, with
  \<open>Inl\<close> carrying the exception. \<open>TrytesDecodeError\<close> and \<open>UnicodeDecodeError\<close> are the
  two exceptions that \<open>Bundle.get_messages\<close> catches; \<open>IndexError\<close> is what indexing an
  empty sequence raises; \<open>InvalidLength\<close> and \<open>RangeError\<close> are the codec failures of the
  specification; \<open>LookupError\<close> stands for any other exception a text decoder may raise
  (such as an unknown error-handler name).
\<close>

datatype error =
  InvalidLength | RangeError | IndexError | TrytesDecodeError | UnicodeDecodeError | LookupError

definition bind_result :: "error + 'a \<Rightarrow> ('a \<Rightarrow> error + 'b) \<Rightarrow> error + 'b" where
  "bind_result r f = (case r of Inl e \<Rightarrow> Inl e | Inr x \<Rightarrow> f x)"

section \<open>Ternary codec (\<open>iota.trits\<close>, \<open>iota.types.TryteString\<close>)\<close>

text \<open>
  The modules \<open>iota.trits\<close> and \<open>iota.types\<close> are imported by
  \<open>iota/transaction/base.py\<close> but are not part of the sources at hand. The definitions
  of this section follow the specification (sections 4.1 and 6).
\<close>

text \<open>Modelled from the spec: a trit is a balanced-ternary digit, one of \<open>-1, 0, 1\<close>.\<close>

datatype trit = Minus | Zero | Plus

fun trit_value :: "trit \<Rightarrow> int" where
  "trit_value Minus = - 1"
| "trit_value Zero = 0"
| "trit_value Plus = 1"

definition trit_of_int :: "int \<Rightarrow> trit" where
  "trit_of_int r = (if r < 0 then Minus else if r = 0 then Zero else Plus)"

text \<open>
  Modelled from the spec: a tryte is one symbol of a 27-symbol alphabet and stands for
  three trits (\<open>iota.types.TryteString\<close> and its alphabet are missing). The symbol
  \<open>9\<close> is the one whose three trits are zero; it is the padding symbol.
\<close>

datatype tryte = Tryte trit trit trit

definition tryte9 :: tryte where
  "tryte9 = Tryte Zero Zero Zero"

definition tryteA :: tryte where
  "tryteA = Tryte Plus Zero Zero"

text \<open>
  Modelled from the spec: \<open>int_from_trits\<close> (\<open>iota.trits\<close> is missing) decodes a
  balanced-ternary digit sequence to a signed integer; the first digit is the least
  significant, so that padding zeros sit at the high end.
\<close>

fun int_from_trits :: "trit list \<Rightarrow> int" where
  "int_from_trits [] = 0"
| "int_from_trits (t # ts) = trit_value t + 3 * int_from_trits ts"

text \<open>
  Modelled from the spec: \<open>trits_from_int value pad\<close> (\<open>iota.trits\<close> is missing) encodes
  a signed integer into exactly \<open>pad\<close> balanced-ternary digits, zero-padded on the high
  end, and fails with \<open>RangeError\<close> when the value does not fit.
\<close>

fun trits_from_int :: "int \<Rightarrow> nat \<Rightarrow> error + trit list" where
  "trits_from_int n 0 = (if n = 0 then Inr [] else Inl RangeError)"
| "trits_from_int n (Suc pad) =
     (let r = (n + 1) mod 3 - 1 in
      case trits_from_int ((n - r) div 3) pad of
        Inl e \<Rightarrow> Inl e
      | Inr ts \<Rightarrow> Inr (trit_of_int r # ts))"

text \<open>The largest magnitude that \<open>pad\<close> balanced-ternary digits represent.\<close>

fun max_magnitude :: "nat \<Rightarrow> int" where
  "max_magnitude 0 = 0"
| "max_magnitude (Suc pad) = 3 * max_magnitude pad + 1"

text \<open>
  Modelled from the spec: \<open>TryteString.as_trits\<close> and \<open>TryteString.from_trits\<close>
  (\<open>iota.types\<close> is missing), three trits per symbol. A trit sequence whose length is
  not a multiple of three is completed with zero trits.
\<close>

fun as_trits :: "tryte list \<Rightarrow> trit list" where
  "as_trits [] = []"
| "as_trits (Tryte a b c # s) = a # b # c # as_trits s"

fun from_trits :: "trit list \<Rightarrow> tryte list" where
  "from_trits (a # b # c # ts) = Tryte a b c # from_trits ts"
| "from_trits [a, b] = [Tryte a b Zero]"
| "from_trits [a] = [Tryte a Zero Zero]"
| "from_trits [] = []"

text \<open>
  Python's slice \<open>s[i:j]\<close> for \<open>0 \<le> i \<le> j\<close>: it never raises and is cut off at the
  end of the sequence.
\<close>

definition slice :: "nat \<Rightarrow> nat \<Rightarrow> 'a list \<Rightarrow> 'a list" where
  "slice i j s = take (j - i) (drop i s)"

text \<open>
  Modelled from the spec: the truth value of a tryte string (the class
  \<open>iota.types.TryteString\<close> is missing), which decides \<open>if not hash_\<close>,
  \<open>self._legacy_tag or self.tag\<close> and \<open>if message_trytes\<close> in the source. The
  specification derives the hash when none is supplied and returns the explicit legacy
  tag when it is present, so a tryte string that holds trytes is true; the tryte string
  without trytes, with which \<open>get_messages\<close> starts its buffer, is false, as an empty
  Python sequence is. The functions below that test a tryte string take the test as a
  parameter \<open>B\<close>, and \<open>bool_of_trytes\<close> is its instance.
\<close>

definition bool_of_trytes :: "tryte list \<Rightarrow> bool" where
  "bool_of_trytes s = (s \<noteq> [])"

text \<open>
  Modelled from the spec: \<open>TransactionTrytes\<close> (\<open>iota.transaction.types\<close> is missing)
  accepts exactly 2673 trytes and fails with \<open>InvalidLength\<close> otherwise.
\<close>

definition TransactionTrytes :: "tryte list \<Rightarrow> error + tryte list" where
  "TransactionTrytes s = (if length s = 2673 then Inr s else Inl InvalidLength)"


section \<open>Transaction\<close>

text \<open>
  \<open>Address\<close> (\<open>iota.types\<close>) is an object whose attribute \<open>address\<close> holds the trytes of
  the address; two addresses are compared with \<open>==\<close>.
\<close>

record Address =
  address :: "tryte list"

text \<open>
  The attributes that \<open>Transaction.__init__\<close> assigns. \<open>hash\<close> and the private
  \<open>_legacy_tag\<close> (here \<open>private_legacy_tag\<close>) may be \<open>None\<close>, and the source handles that
  case; \<open>is_confirmed\<close> is the tri-state flag. The remaining attributes are modelled at
  their value type: the typed tryte strings (\<open>Fragment\<close>, \<open>Tag\<close>, \<open>Nonce\<close>, the hashes)
  as tryte lists, the numeric fields as Python integers.
\<close>

record Transaction =
  hash :: "tryte list option"
  bundle_hash :: "tryte list"
  address :: Address
  "value" :: int
  private_legacy_tag :: "tryte list option"
  nonce :: "tryte list"
  timestamp :: int
  current_index :: int
  last_index :: int
  trunk_transaction_hash :: "tryte list"
  branch_transaction_hash :: "tryte list"
  tag :: "tryte list"
  attachment_timestamp :: int
  attachment_timestamp_lower_bound :: int
  attachment_timestamp_upper_bound :: int
  signature_message_fragment :: "tryte list"
  is_confirmed :: "bool option"

text \<open>
  \<open>Transaction.__init__\<close>, with the parameters in the order of the source; the last
  one, \<open>legacy_tag\<close>, defaults to \<open>None\<close>.
\<close>

definition Transaction_init ::
  "tryte list option \<Rightarrow> tryte list \<Rightarrow> Address \<Rightarrow> int \<Rightarrow> int \<Rightarrow> int \<Rightarrow> int \<Rightarrow> tryte list \<Rightarrow>
   tryte list \<Rightarrow> tryte list \<Rightarrow> tryte list \<Rightarrow> int \<Rightarrow> int \<Rightarrow> int \<Rightarrow> tryte list \<Rightarrow>
   tryte list option \<Rightarrow> Transaction" where
  "Transaction_init hash_arg signature_message_fragment' address' value' timestamp'
     current_index' last_index' bundle_hash' trunk_transaction_hash'
     branch_transaction_hash' tag' attachment_timestamp' attachment_timestamp_lower_bound'
     attachment_timestamp_upper_bound' nonce' legacy_tag' =
   \<lparr> hash = hash_arg,
     bundle_hash = bundle_hash',
     address = address',
     value = value',
     private_legacy_tag = legacy_tag',
     nonce = nonce',
     timestamp = timestamp',
     current_index = current_index',
     last_index = last_index',
     trunk_transaction_hash = trunk_transaction_hash',
     branch_transaction_hash = branch_transaction_hash',
     tag = tag',
     attachment_timestamp = attachment_timestamp',
     attachment_timestamp_lower_bound = attachment_timestamp_lower_bound',
     attachment_timestamp_upper_bound = attachment_timestamp_upper_bound',
     signature_message_fragment = signature_message_fragment',
     is_confirmed = None \<rparr>"

text \<open>
  The property \<open>legacy_tag\<close>: \<open>self._legacy_tag or self.tag\<close>. Python's \<open>x or y\<close> is
  \<open>x\<close> when \<open>x\<close> is true and \<open>y\<close> otherwise; \<open>None\<close> is false, and a tag is true
  when its truth value \<open>B\<close> says so.
\<close>

definition legacy_tag :: "(tryte list \<Rightarrow> bool) \<Rightarrow> Transaction \<Rightarrow> tryte list" where
  "legacy_tag B t =
     (case private_legacy_tag t of
        None \<Rightarrow> tag t
      | Some l \<Rightarrow> if B l then l else tag t)"

text \<open>
  The properties \<open>value_as_trytes\<close>, \<open>timestamp_as_trytes\<close>, ...: the value is padded
  to 81 trits (27 trytes), the other numeric fields to 27 trits (9 trytes).
\<close>

definition value_as_trytes :: "Transaction \<Rightarrow> error + tryte list" where
  "value_as_trytes t =
     bind_result (trits_from_int (value t) 81) (\<lambda>ts. Inr (from_trits ts))"

definition timestamp_as_trytes :: "Transaction \<Rightarrow> error + tryte list" where
  "timestamp_as_trytes t =
     bind_result (trits_from_int (timestamp t) 27) (\<lambda>ts. Inr (from_trits ts))"

definition current_index_as_trytes :: "Transaction \<Rightarrow> error + tryte list" where
  "current_index_as_trytes t =
     bind_result (trits_from_int (current_index t) 27) (\<lambda>ts. Inr (from_trits ts))"

definition last_index_as_trytes :: "Transaction \<Rightarrow> error + tryte list" where
  "last_index_as_trytes t =
     bind_result (trits_from_int (last_index t) 27) (\<lambda>ts. Inr (from_trits ts))"

definition attachment_timestamp_as_trytes :: "Transaction \<Rightarrow> error + tryte list" where
  "attachment_timestamp_as_trytes t =
     bind_result (trits_from_int (attachment_timestamp t) 27) (\<lambda>ts. Inr (from_trits ts))"

definition attachment_timestamp_lower_bound_as_trytes :: "Transaction \<Rightarrow> error + tryte list" where
  "attachment_timestamp_lower_bound_as_trytes t =
     bind_result (trits_from_int (attachment_timestamp_lower_bound t) 27)
       (\<lambda>ts. Inr (from_trits ts))"

definition attachment_timestamp_upper_bound_as_trytes :: "Transaction \<Rightarrow> error + tryte list" where
  "attachment_timestamp_upper_bound_as_trytes t =
     bind_result (trits_from_int (attachment_timestamp_upper_bound t) 27)
       (\<lambda>ts. Inr (from_trits ts))"


text \<open>
  \<open>Transaction.as_tryte_string\<close>: the fields are concatenated from left to right, so
  the first encoding that fails is the one whose exception is raised; the result is
  wrapped in \<open>TransactionTrytes\<close>.
\<close>

definition as_tryte_string :: "(tryte list \<Rightarrow> bool) \<Rightarrow> Transaction \<Rightarrow> error + tryte list" where
  "as_tryte_string B t =
     bind_result (value_as_trytes t) (\<lambda>v.
     bind_result (timestamp_as_trytes t) (\<lambda>ts.
     bind_result (current_index_as_trytes t) (\<lambda>ci.
     bind_result (last_index_as_trytes t) (\<lambda>li.
     bind_result (attachment_timestamp_as_trytes t) (\<lambda>at.
     bind_result (attachment_timestamp_lower_bound_as_trytes t) (\<lambda>lb.
     bind_result (attachment_timestamp_upper_bound_as_trytes t) (\<lambda>ub.
       TransactionTrytes
         (signature_message_fragment t
          @ Address.address (Transaction.address t)
          @ v
          @ legacy_tag B t
          @ ts
          @ ci
          @ li
          @ bundle_hash t
          @ trunk_transaction_hash t
          @ branch_transaction_hash t
          @ tag t
          @ at
          @ lb
          @ ub
          @ nonce t))))))))"

text \<open>\<open>Transaction.get_signature_validation_trytes\<close>.\<close>

definition get_signature_validation_trytes ::
  "(tryte list \<Rightarrow> bool) \<Rightarrow> Transaction \<Rightarrow> error + tryte list" where
  "get_signature_validation_trytes B t =
     bind_result (value_as_trytes t) (\<lambda>v.
     bind_result (timestamp_as_trytes t) (\<lambda>ts.
     bind_result (current_index_as_trytes t) (\<lambda>ci.
     bind_result (last_index_as_trytes t) (\<lambda>li.
       Inr (Address.address (Transaction.address t)
            @ v
            @ legacy_tag B t
            @ ts
            @ ci
            @ li)))))"

section \<open>Bundle\<close>

text \<open>
  A bundle holds the list \<open>transactions\<close> and the private flag \<open>_is_confirmed\<close>
  (here \<open>private_is_confirmed\<close>).
\<close>

record Bundle =
  transactions :: "Transaction list"
  private_is_confirmed :: "bool option"

text \<open>
  \<open>Bundle.__init__\<close>. The argument is \<open>None\<close> or a collection of transactions; an
  argument that is false (\<open>None\<close>, an empty list) leaves the bundle empty. Python's
  \<open>sorted\<close> is a stable sort, as is \<open>sort_key\<close>.
\<close>

definition Bundle_init :: "Transaction list option \<Rightarrow> Bundle" where
  "Bundle_init arg =
     \<lparr> transactions =
         (case arg of
            None \<Rightarrow> []
          | Some ts \<Rightarrow> if ts \<noteq> [] then [] @ sort_key current_index ts else []),
       private_is_confirmed = None \<rparr>"

text \<open>
  \<open>Bundle.__getitem__\<close> on an integer index: a negative index counts from the end, an
  index out of range raises \<open>IndexError\<close>. \<open>Bundle.__len__\<close> is the length of the list,
  and a bundle is true when its length is not zero.
\<close>

definition Bundle_getitem :: "Bundle \<Rightarrow> int \<Rightarrow> error + Transaction" where
  "Bundle_getitem b i =
     (let n = int (length (transactions b)); j = (if i < 0 then n + i else i)
      in if 0 \<le> j \<and> j < n then Inr (transactions b ! nat j) else Inl IndexError)"

definition Bundle_len :: "Bundle \<Rightarrow> nat" where
  "Bundle_len b = length (transactions b)"

definition tail_transaction :: "Bundle \<Rightarrow> error + Transaction" where
  "tail_transaction b = Bundle_getitem b 0"

text \<open>The property \<open>Bundle.is_confirmed\<close> and its setter, which loops over the bundle.\<close>

definition Bundle_is_confirmed :: "Bundle \<Rightarrow> bool option" where
  "Bundle_is_confirmed b = private_is_confirmed b"

fun confirm_each :: "bool option \<Rightarrow> Transaction list \<Rightarrow> Transaction list" where
  "confirm_each new_is_confirmed [] = []"
| "confirm_each new_is_confirmed (txn # rest) =
     txn\<lparr>is_confirmed := new_is_confirmed\<rparr> # confirm_each new_is_confirmed rest"

definition set_is_confirmed :: "Bundle \<Rightarrow> bool option \<Rightarrow> Bundle" where
  "set_is_confirmed b new_is_confirmed =
     (let b' = b\<lparr>private_is_confirmed := new_is_confirmed\<rparr>
      in b'\<lparr>transactions := confirm_each new_is_confirmed (transactions b')\<rparr>)"

text \<open>
  The property \<open>Bundle.hash\<close>: the \<open>IndexError\<close> of the tail access becomes \<open>None\<close>,
  any other exception is passed on.
\<close>

definition Bundle_hash :: "Bundle \<Rightarrow> error + tryte list option" where
  "Bundle_hash b =
     (case tail_transaction b of
        Inr txn \<Rightarrow> Inr (Some (bundle_hash txn))
      | Inl e \<Rightarrow> if e = IndexError then Inr None else Inl e)"

text \<open>
  \<open>Bundle.group_transactions\<close>. The loop over \<open>self.transactions[1:]\<close> carries
  \<open>groups\<close>, \<open>current_group\<close> and \<open>last_txn\<close>; \<open>if self\<close> guards the access to the tail
  transaction.
\<close>

fun group_loop ::
  "Transaction list \<Rightarrow> Transaction \<Rightarrow> Transaction list \<Rightarrow> Transaction list list \<Rightarrow>
   Transaction list list \<times> Transaction list" where
  "group_loop [] last_txn current_group groups = (groups, current_group)"
| "group_loop (current_txn # rest) last_txn current_group groups =
     (if Transaction.address current_txn = Transaction.address last_txn
      then group_loop rest current_txn (current_group @ [current_txn]) groups
      else group_loop rest current_txn [current_txn] (groups @ [current_group]))"

definition group_transactions :: "Bundle \<Rightarrow> Transaction list list" where
  "group_transactions b =
     (case transactions b of
        [] \<Rightarrow> []
      | last_txn # rest \<Rightarrow>
          (case group_loop rest last_txn [last_txn] [] of
             (groups, current_group) \<Rightarrow>
               if current_group \<noteq> [] then groups @ [current_group] else groups))"

text \<open>
  \<open>Bundle.get_messages\<close>. The text decoder \<open>TryteString.decode\<close> is missing and is the
  parameter \<open>D\<close>: \<open>D errors trytes\<close> is the decoded text or the exception raised.
  \<open>decode_failure\<close> is the \<open>except\<close> clause: the two exceptions that are caught.
\<close>

definition decode_failure :: "error \<Rightarrow> bool" where
  "decode_failure e = (e = TrytesDecodeError \<or> e = UnicodeDecodeError)"

definition message_trytes :: "Transaction list \<Rightarrow> tryte list" where
  "message_trytes grp = foldl (\<lambda>acc txn. acc @ signature_message_fragment txn) [] grp"

fun get_messages_loop ::
  "(string \<Rightarrow> tryte list \<Rightarrow> error + string) \<Rightarrow> (tryte list \<Rightarrow> bool) \<Rightarrow> string \<Rightarrow> string \<Rightarrow>
   Transaction list list \<Rightarrow> string list \<Rightarrow> error + string list" where
  "get_messages_loop D B errors decode_errors [] messages = Inr messages"
| "get_messages_loop D B errors decode_errors (grp # groups) messages =
     (case grp of
        [] \<Rightarrow> Inl IndexError
      | first_txn # _ \<Rightarrow>
          if value first_txn < 0 then get_messages_loop D B errors decode_errors groups messages
          else if B (message_trytes grp) then
            (case D decode_errors (message_trytes grp) of
               Inr m \<Rightarrow> get_messages_loop D B errors decode_errors groups (messages @ [m])
             | Inl e \<Rightarrow>
                 if decode_failure e then
                   (if errors \<noteq> ''drop'' then Inl e
                    else get_messages_loop D B errors decode_errors groups messages)
                 else Inl e)
          else get_messages_loop D B errors decode_errors groups messages)"

definition get_messages ::
  "(string \<Rightarrow> tryte list \<Rightarrow> error + string) \<Rightarrow> (tryte list \<Rightarrow> bool) \<Rightarrow> string \<Rightarrow> Bundle \<Rightarrow>
   error + string list" where
  "get_messages D B errors b =
     (let decode_errors = (if errors = ''drop'' then ''strict'' else errors)
      in get_messages_loop D B errors decode_errors (group_transactions b) [])"

text \<open>
  \<open>Bundle.as_tryte_strings\<close>. Iterating the bundle yields \<open>self.transactions\<close> in
  order; \<open>reversed(self)\<close> yields \<open>self[i]\<close> for \<open>i\<close> from \<open>len(self) - 1\<close> down to
  \<open>0\<close>. The list comprehension stops at the first encoding that raises.
\<close>

fun map_result :: "('a \<Rightarrow> error + 'b) \<Rightarrow> 'a list \<Rightarrow> error + 'b list" where
  "map_result f [] = Inr []"
| "map_result f (x # xs) =
     bind_result (f x) (\<lambda>y. bind_result (map_result f xs) (\<lambda>ys. Inr (y # ys)))"

definition reversed_bundle :: "Bundle \<Rightarrow> Transaction list" where
  "reversed_bundle b = map (\<lambda>i. transactions b ! i) (rev [0..<Bundle_len b])"

definition as_tryte_strings :: "(tryte list \<Rightarrow> bool) \<Rightarrow> Bundle \<Rightarrow> bool \<Rightarrow> error + tryte list list" where
  "as_tryte_strings B b head_to_tail =
     map_result (as_tryte_string B) (if head_to_tail then transactions b else reversed_bundle b)"

text \<open>
  Two predicates on lists of groups, used to state the loop invariant of
  \<open>group_transactions\<close>: every transaction of a group has the address of the group's
  first transaction, and the last transaction of a group differs in address from the first
  transaction of the next group.
\<close>

definition same_address :: "Transaction list \<Rightarrow> bool" where
  "same_address g =
     (g \<noteq> [] \<and> (\<forall>t\<in>set g. Transaction.address t = Transaction.address (hd g)))"

definition boundaries_differ :: "Transaction list list \<Rightarrow> bool" where
  "boundaries_differ gs =
     (\<forall>i. Suc i < length gs \<longrightarrow>
        Transaction.address (last (gs ! i)) \<noteq> Transaction.address (hd (gs ! Suc i)))"

section \<open>Example data\<close>

text \<open>
  Closed terms for evaluating the definitions: a stand-in for the hash engine, a text
  decoder that reads the first tryte only, transactions with padded fields, a transaction
  whose fragment holds no trytes, and a bundle of five transactions in four address
  groups.
\<close>

definition tryteZ :: tryte where
  "tryteZ = Tryte Minus Zero Zero"


definition example_decode :: "string \<Rightarrow> tryte list \<Rightarrow> error + string" where
  "example_decode errors s =
     (case s of
        [] \<Rightarrow> Inr []
      | t # _ \<Rightarrow>
          if t = tryteA then Inr ''A''
          else if t = tryte9 then Inr []
          else if errors = ''strict'' then Inl TrytesDecodeError
          else Inr ''?'')"

definition example_transaction :: "tryte \<Rightarrow> int \<Rightarrow> int \<Rightarrow> tryte \<Rightarrow> Transaction" where
  "example_transaction a v i m =
     Transaction_init None (m # replicate 2186 tryte9) \<lparr> Address.address = replicate 81 a \<rparr>
       v 0 i 4
       (replicate 81 tryte9) (replicate 81 tryte9) (replicate 81 tryte9) (replicate 27 tryte9)
       0 0 0 (replicate 27 tryte9) None"

definition blank_transaction :: Transaction where
  "blank_transaction =
     Transaction_init None [] \<lparr> Address.address = replicate 81 tryteA \<rparr>
       0 0 4 4
       (replicate 81 tryte9) (replicate 81 tryte9) (replicate 81 tryte9) (replicate 27 tryte9)
       0 0 0 (replicate 27 tryte9) None"

definition example_bundle :: Bundle where
  "example_bundle =
     \<lparr> transactions =
         [example_transaction tryteA 5 0 tryteA,
          example_transaction tryteA 0 1 tryte9,
          example_transaction tryte9 (- 5) 2 tryteA,
          example_transaction tryteZ 0 3 tryteZ,
          blank_transaction],
       private_is_confirmed = None \<rparr>"

text \<open>
  The four address groups of the example bundle: two transactions carrying the message
  \<open>A\<close>, an input (negative value), a transaction whose fragment the example decoder
  rejects in strict mode, and the transaction whose fragment holds no trytes.
\<close>

definition message_group :: "Transaction list" where
  "message_group =
     [example_transaction tryteA 5 0 tryteA, example_transaction tryteA 0 1 tryte9]"

definition input_group :: "Transaction list" where
  "input_group = [example_transaction tryte9 (- 5) 2 tryteA]"

definition garbled_group :: "Transaction list" where
  "garbled_group = [example_transaction tryteZ 0 3 tryteZ]"

definition blank_group :: "Transaction list" where
  "blank_group = [blank_transaction]"

section \<open>Properties of the ternary codec\<close>

lemma trits_from_int_int_from_trits:
  "trits_from_int (int_from_trits ts) (length ts) = Inr ts"
proof (induction ts)
  case Nil
  show ?case by simp
next
  case (Cons t ts)
  define q where "q = int_from_trits ts"
  have r: "(trit_value t + 3 * q + 1) mod 3 - 1 = trit_value t"
    by (cases t) simp_all
  have d: "(trit_value t + 3 * q - trit_value t) div 3 = q"
    by simp
  have c: "trit_of_int (trit_value t) = t"
    by (cases t) (simp_all add: trit_of_int_def)
  from Cons.IH show ?case
    by (simp add: Let_def q_def [symmetric] r c)
qed

lemma trits_from_int_fits:
  "\<bar>n\<bar> \<le> max_magnitude p \<Longrightarrow>
     \<exists>ts. trits_from_int n p = Inr ts \<and> length ts = p \<and> int_from_trits ts = n"
proof (induction p arbitrary: n)
  case 0
  then show ?case by simp
next
  case (Suc p)
  define r where "r = (n + 1) mod 3 - 1"
  define q where "q = (n - r) div 3"
  have n: "n = 3 * q + r" and rr: "r = - 1 \<or> r = 0 \<or> r = 1"
    unfolding q_def r_def by presburger+
  from Suc.prems n rr have "\<bar>q\<bar> \<le> max_magnitude p"
    by auto
  from Suc.IH [OF this] obtain ts where
    ts: "trits_from_int q p = Inr ts" "length ts = p" "int_from_trits ts = q"
    by blast
  have v: "trit_value (trit_of_int r) = r"
    using rr by (auto simp: trit_of_int_def)
  have "trits_from_int n (Suc p) =
          (case trits_from_int q p of Inl e \<Rightarrow> Inl e | Inr ts \<Rightarrow> Inr (trit_of_int r # ts))"
    unfolding q_def r_def by (simp only: trits_from_int.simps Let_def)
  then show ?case
    using ts v n by simp
qed

lemma trits_from_int_Inr:
  "trits_from_int n p = Inr ts \<Longrightarrow> length ts = p \<and> int_from_trits ts = n \<and> \<bar>n\<bar> \<le> max_magnitude p"
proof (induction p arbitrary: n ts)
  case 0
  then show ?case by (simp split: if_splits)
next
  case (Suc p)
  define r where "r = (n + 1) mod 3 - 1"
  define q where "q = (n - r) div 3"
  have n: "n = 3 * q + r" and rr: "r = - 1 \<or> r = 0 \<or> r = 1"
    unfolding q_def r_def by presburger+
  have "trits_from_int n (Suc p) =
          (case trits_from_int q p of Inl e \<Rightarrow> Inl e | Inr ts \<Rightarrow> Inr (trit_of_int r # ts))"
    unfolding q_def r_def by (simp only: trits_from_int.simps Let_def)
  with Suc.prems obtain us where
    us: "trits_from_int q p = Inr us" and ts: "ts = trit_of_int r # us"
    by (auto split: sum.splits)
  from Suc.IH [OF us] have ih: "length us = p" "int_from_trits us = q" "\<bar>q\<bar> \<le> max_magnitude p"
    by simp_all
  have v: "trit_value (trit_of_int r) = r"
    using rr by (auto simp: trit_of_int_def)
  show ?case
    using ih v n rr ts by auto
qed

lemma max_magnitude_eq: "max_magnitude p = (3 ^ p - 1) div 2"
proof (induction p)
  case 0
  show ?case by simp
next
  case (Suc p)
  have "odd ((3::int) ^ p)" by simp
  then obtain k where k: "(3::int) ^ p = 2 * k + 1" by (rule oddE)
  show ?case using Suc by (simp add: k)
qed

lemma from_trits_as_trits: "from_trits (as_trits s) = s"
  by (induction s rule: as_trits.induct) simp_all

lemma length_as_trits: "length (as_trits s) = 3 * length s"
  by (induction s rule: as_trits.induct) simp_all

lemma length_from_trits: "length ts = 3 * k \<Longrightarrow> length (from_trits ts) = k"
proof (induction ts arbitrary: k rule: from_trits.induct)
  case (1 a b c ts)
  then obtain j where "k = Suc j" by (cases k) auto
  with 1 show ?case by simp
next
  case (2 a b)
  then show ?case by (simp; presburger)
next
  case (3 a)
  then show ?case by (simp; presburger)
qed simp

lemma as_trits_from_trits: "length ts = 3 * k \<Longrightarrow> as_trits (from_trits ts) = ts"
proof (induction ts arbitrary: k rule: from_trits.induct)
  case (1 a b c ts)
  then obtain j where "k = Suc j" by (cases k) auto
  with 1 show ?case by simp
next
  case (2 a b)
  then show ?case by (simp; presburger)
next
  case (3 a)
  then show ?case by (simp; presburger)
qed simp



lemma length_slice: "length (slice i j s) = min (j - i) (length s - i)"
  by (simp add: slice_def)


section \<open>Properties of the transaction\<close>











section \<open>Properties of the bundle\<close>

subsection \<open>Construction\<close>

text \<open>
  C3. Constructing a bundle from any list of transactions gives a sequence sorted
  ascending by \<open>current_index\<close>; for every index value the transactions carrying it
  appear in their input order (the sort is stable); and the sequence is a permutation of
  the input.
\<close>

theorem Bundle_init_sorted_stable:
  "sorted (map current_index (transactions (Bundle_init (Some ts))))
   \<and> (\<forall>k. filter (\<lambda>t. current_index t = k) (transactions (Bundle_init (Some ts)))
          = filter (\<lambda>t. current_index t = k) ts)
   \<and> mset (transactions (Bundle_init (Some ts))) = mset ts"
  by (simp add: Bundle_init_def sort_key_stable)

subsection \<open>Confirmation flag\<close>

lemma confirm_each_map: "confirm_each v ts = map (\<lambda>t. t\<lparr>is_confirmed := v\<rparr>) ts"
  by (induction ts) simp_all

text \<open>
  C7. Setting \<open>is_confirmed\<close> of a bundle to \<open>v\<close> stores \<open>v\<close> in the bundle's own flag
  and in the flag of every contained transaction, position by position; afterwards every
  contained transaction's flag reads \<open>v\<close>.
\<close>

theorem set_is_confirmed_cascade:
  "Bundle_is_confirmed (set_is_confirmed b v) = v
   \<and> map is_confirmed (transactions (set_is_confirmed b v)) = replicate (length (transactions b)) v
   \<and> transactions (set_is_confirmed b v) = map (\<lambda>t. t\<lparr>is_confirmed := v\<rparr>) (transactions b)"
  by (simp add: set_is_confirmed_def Bundle_is_confirmed_def confirm_each_map Let_def
      map_replicate_const comp_def)

subsection \<open>Hash\<close>

text \<open>
  C8. The \<open>hash\<close> property of an empty bundle is \<open>None\<close>, returned normally although
  the tail access raises \<open>IndexError\<close>; for a bundle with transactions it is the
  \<open>bundle_hash\<close> of the tail transaction, the first of the sequence.
\<close>

theorem Bundle_hash_tail_or_None:
  "(transactions b = [] \<longrightarrow> tail_transaction b = Inl IndexError \<and> Bundle_hash b = Inr None)
   \<and> (transactions b \<noteq> [] \<longrightarrow>
        tail_transaction b = Inr (hd (transactions b))
        \<and> Bundle_hash b = Inr (Some (bundle_hash (hd (transactions b)))))"
  by (cases "transactions b") (simp_all add: Bundle_hash_def tail_transaction_def Bundle_getitem_def)

theorem Bundle_hash_tail_or_None_witness:
  "transactions (Bundle_init None) = []
   \<and> Bundle_hash (Bundle_init None) = Inr None
   \<and> transactions example_bundle \<noteq> []
   \<and> Bundle_hash example_bundle = Inr (Some (replicate 81 tryte9))"
  using Bundle_hash_tail_or_None [of "Bundle_init None"] Bundle_hash_tail_or_None [of example_bundle]
  by (simp add: Bundle_init_def example_bundle_def example_transaction_def Transaction_init_def)

subsection \<open>Serialisation order\<close>

lemma map_result_Inr_iff: "map_result f xs = Inr ys \<longleftrightarrow> map f xs = map Inr ys"
proof (induction xs arbitrary: ys)
  case Nil
  show ?case by auto
next
  case (Cons x xs)
  show ?case
  proof (cases "f x")
    case (Inl e)
    then show ?thesis by (cases ys) (auto simp: bind_result_def)
  next
    case (Inr y)
    show ?thesis
    proof (cases "map_result f xs")
      case (Inl e)
      with Cons.IH have "\<And>zs. map f xs \<noteq> map Inr zs" by auto
      with Inl Inr show ?thesis by (cases ys) (auto simp: bind_result_def)
    next
      case r: (Inr zs)
      from Cons.IH [of zs] r have "map f xs = map Inr zs" by simp
      with r Inr show ?thesis by (cases ys) (auto simp: bind_result_def)
    qed
  qed
qed

lemma reversed_bundle_rev: "reversed_bundle b = rev (transactions b)"
  by (simp add: reversed_bundle_def Bundle_len_def map_nth flip: rev_map)

text \<open>
  C6. With \<open>head_to_tail\<close> false, \<open>as_tryte_strings\<close> returns \<open>ws\<close> exactly when \<open>ws\<close>
  lists the encodings of the bundle's transactions in the reverse of the internal order;
  with \<open>head_to_tail\<close> true, exactly when it lists them in the internal order.
\<close>

theorem as_tryte_strings_order:
  "(as_tryte_strings B b False = Inr ws
      \<longleftrightarrow> map (as_tryte_string B) (rev (transactions b)) = map Inr ws)
   \<and> (as_tryte_strings B b True = Inr ws
      \<longleftrightarrow> map (as_tryte_string B) (transactions b) = map Inr ws)
   \<and> as_tryte_strings B b False = map_result (as_tryte_string B) (rev (transactions b))
   \<and> as_tryte_strings B b True = map_result (as_tryte_string B) (transactions b)"
  by (simp add: as_tryte_strings_def reversed_bundle_rev map_result_Inr_iff)

subsection \<open>Grouping by address\<close>

lemma boundaries_differ_snoc:
  assumes "boundaries_differ gs"
    and "gs \<noteq> [] \<longrightarrow> Transaction.address (last (last gs)) \<noteq> Transaction.address (hd g)"
  shows "boundaries_differ (gs @ [g])"
  unfolding boundaries_differ_def
proof (intro allI impI)
  fix i
  assume i: "Suc i < length (gs @ [g])"
  show "Transaction.address (last ((gs @ [g]) ! i)) \<noteq> Transaction.address (hd ((gs @ [g]) ! Suc i))"
  proof (cases "Suc i < length gs")
    case True
    with assms(1) show ?thesis by (simp add: nth_append boundaries_differ_def)
  next
    case False
    with i have e: "Suc i = length gs" by simp
    then have ne: "gs \<noteq> []" by auto
    from e have "i = length gs - 1" by simp
    then have "gs ! i = last gs" using ne by (simp add: last_conv_nth)
    with e assms(2) ne show ?thesis by (simp add: nth_append)
  qed
qed

lemma same_address_run:
  assumes "cur \<noteq> []" and "\<forall>t\<in>set cur. Transaction.address t = Transaction.address last_txn"
  shows "same_address cur" and "Transaction.address (hd cur) = Transaction.address last_txn"
proof -
  from assms show h: "Transaction.address (hd cur) = Transaction.address last_txn"
    by (cases cur) simp_all
  show "same_address cur"
    unfolding same_address_def h using assms by blast
qed

lemma group_loop_invariant:
  assumes "group_loop rest last_txn cur groups = (groups', cur')"
    and "cur \<noteq> []" and "last cur = last_txn"
    and "\<forall>t\<in>set cur. Transaction.address t = Transaction.address last_txn"
    and "\<forall>g\<in>set groups. same_address g"
    and "boundaries_differ groups"
    and "groups \<noteq> [] \<longrightarrow> Transaction.address (last (last groups)) \<noteq> Transaction.address last_txn"
  shows "concat (groups' @ [cur']) = concat (groups @ [cur]) @ rest
       \<and> cur' \<noteq> []
       \<and> (\<forall>g\<in>set (groups' @ [cur']). same_address g)
       \<and> boundaries_differ (groups' @ [cur'])"
  using assms
proof (induction rest arbitrary: last_txn cur groups)
  case Nil
  note sa = same_address_run [OF Nil.prems(2,4)]
  from Nil.prems(1) have eq: "groups' = groups" "cur' = cur" by simp_all
  have "boundaries_differ (groups @ [cur])"
    by (rule boundaries_differ_snoc [OF Nil.prems(6)]) (use Nil.prems(7) sa(2) in simp)
  moreover have "\<forall>g\<in>set (groups @ [cur]). same_address g"
    using Nil.prems(5) sa(1) by simp
  ultimately show ?case
    unfolding eq using Nil.prems(2) by simp
next
  case (Cons c rest)
  note sa = same_address_run [OF Cons.prems(2,4)]
  show ?case
  proof (cases "Transaction.address c = Transaction.address last_txn")
    case True
    with Cons.prems(1) have run: "group_loop rest c (cur @ [c]) groups = (groups', cur')"
      by simp
    have "concat (groups' @ [cur']) = concat (groups @ [cur @ [c]]) @ rest
       \<and> cur' \<noteq> []
       \<and> (\<forall>g\<in>set (groups' @ [cur']). same_address g)
       \<and> boundaries_differ (groups' @ [cur'])"
    proof (rule Cons.IH [OF run])
      show "cur @ [c] \<noteq> []" by simp
      show "last (cur @ [c]) = c" by simp
      show "\<forall>t\<in>set (cur @ [c]). Transaction.address t = Transaction.address c"
        using Cons.prems(4) True by simp
      show "\<forall>g\<in>set groups. same_address g"
        by (rule Cons.prems(5))
      show "boundaries_differ groups"
        by (rule Cons.prems(6))
      show "groups \<noteq> [] \<longrightarrow> Transaction.address (last (last groups)) \<noteq> Transaction.address c"
        using Cons.prems(7) True by simp
    qed
    then show ?thesis by simp
  next
    case False
    with Cons.prems(1) have run: "group_loop rest c [c] (groups @ [cur]) = (groups', cur')"
      by simp
    have "concat (groups' @ [cur']) = concat ((groups @ [cur]) @ [[c]]) @ rest
       \<and> cur' \<noteq> []
       \<and> (\<forall>g\<in>set (groups' @ [cur']). same_address g)
       \<and> boundaries_differ (groups' @ [cur'])"
    proof (rule Cons.IH [OF run])
      show "[c] \<noteq> []" by simp
      show "last [c] = c" by simp
      show "\<forall>t\<in>set [c]. Transaction.address t = Transaction.address c" by simp
      show "\<forall>g\<in>set (groups @ [cur]). same_address g"
        using Cons.prems(5) sa(1) by simp
      show "boundaries_differ (groups @ [cur])"
        by (rule boundaries_differ_snoc [OF Cons.prems(6)]) (use Cons.prems(7) sa(2) in simp)
      show "groups @ [cur] \<noteq> [] \<longrightarrow>
        Transaction.address (last (last (groups @ [cur]))) \<noteq> Transaction.address c"
        using Cons.prems(3) False by simp
    qed
    then show ?thesis by simp
  qed
qed

lemma group_transactions_invariant:
  "concat (group_transactions b) = transactions b
   \<and> (\<forall>g\<in>set (group_transactions b). same_address g)
   \<and> boundaries_differ (group_transactions b)"
proof (cases "transactions b")
  case Nil
  then show ?thesis by (simp add: group_transactions_def boundaries_differ_def)
next
  case (Cons t rest)
  obtain groups' cur' where run: "group_loop rest t [t] [] = (groups', cur')"
    by (cases "group_loop rest t [t] []") auto
  have inv: "concat (groups' @ [cur']) = concat ([] @ [[t]]) @ rest
       \<and> cur' \<noteq> []
       \<and> (\<forall>g\<in>set (groups' @ [cur']). same_address g)
       \<and> boundaries_differ (groups' @ [cur'])"
    by (rule group_loop_invariant [OF run]) (simp_all add: boundaries_differ_def)
  then have gt: "group_transactions b = groups' @ [cur']"
    using Cons run by (simp add: group_transactions_def)
  from inv show ?thesis
    unfolding gt using Cons by simp
qed

text \<open>
  C2. For every bundle, the groups returned by \<open>group_transactions\<close>, concatenated in
  order, are the bundle's transaction sequence; every group is non-empty and all its
  transactions have one address; and the last transaction of a group has a different
  address from the first transaction of the next group.
\<close>

theorem group_transactions_partition:
  "concat (group_transactions b) = transactions b
   \<and> (\<forall>g\<in>set (group_transactions b).
         g \<noteq> [] \<and> (\<forall>t\<in>set g. Transaction.address t = Transaction.address (hd g)))
   \<and> (\<forall>i. Suc i < length (group_transactions b) \<longrightarrow>
         Transaction.address (last (group_transactions b ! i))
           \<noteq> Transaction.address (hd (group_transactions b ! Suc i)))"
  using group_transactions_invariant [of b]
  unfolding same_address_def boundaries_differ_def by blast

subsection \<open>The example bundle\<close>

lemma example_fields:
  "Transaction.address (example_transaction a v i m) = \<lparr> Address.address = replicate 81 a \<rparr>"
  "value (example_transaction a v i m) = v"
  "signature_message_fragment (example_transaction a v i m) = m # replicate 2186 tryte9"
  "current_index (example_transaction a v i m) = i"
  "bundle_hash (example_transaction a v i m) = replicate 81 tryte9"
  "Transaction.address blank_transaction = \<lparr> Address.address = replicate 81 tryteA \<rparr>"
  "value blank_transaction = 0"
  "signature_message_fragment blank_transaction = []"
  by (simp_all add: example_transaction_def blank_transaction_def Transaction_init_def)

lemma trytes_distinct:
  "tryteA \<noteq> tryte9" "tryte9 \<noteq> tryteA" "tryteZ \<noteq> tryte9" "tryte9 \<noteq> tryteZ"
  "tryteA \<noteq> tryteZ" "tryteZ \<noteq> tryteA"
  by (simp_all add: tryteA_def tryte9_def tryteZ_def)

lemma example_groups:
  "group_transactions example_bundle =
     [[example_transaction tryteA 5 0 tryteA, example_transaction tryteA 0 1 tryte9],
      [example_transaction tryte9 (- 5) 2 tryteA],
      [example_transaction tryteZ 0 3 tryteZ],
      [blank_transaction]]"
  by (simp add: group_transactions_def example_bundle_def example_fields trytes_distinct)

theorem group_transactions_partition_witness:
  "concat (group_transactions example_bundle) = transactions example_bundle
   \<and> [example_transaction tryteA 5 0 tryteA, example_transaction tryteA 0 1 tryte9]
        \<in> set (group_transactions example_bundle)
   \<and> Suc 0 < length (group_transactions example_bundle)
   \<and> Transaction.address (last (group_transactions example_bundle ! 0))
        \<noteq> Transaction.address (hd (group_transactions example_bundle ! Suc 0))"
proof -
  note p = group_transactions_partition [of example_bundle]
  have g: "[example_transaction tryteA 5 0 tryteA, example_transaction tryteA 0 1 tryte9]
        \<in> set (group_transactions example_bundle)"
    by (simp add: example_groups)
  have l: "Suc 0 < length (group_transactions example_bundle)"
    by (simp add: example_groups)
  from p have "concat (group_transactions example_bundle) = transactions example_bundle"
    by blast
  moreover from p l have "Transaction.address (last (group_transactions example_bundle ! 0))
        \<noteq> Transaction.address (hd (group_transactions example_bundle ! Suc 0))"
    by blast
  ultimately show ?thesis using g l by blast
qed

section \<open>Signature validation payload\<close>

lemma encode_fits:
  assumes "\<bar>n\<bar> \<le> (3 ^ (3 * k) - 1) div 2"
  shows "\<exists>s. bind_result (trits_from_int n (3 * k)) (\<lambda>ts. Inr (from_trits ts)) = Inr s
           \<and> length s = k \<and> int_from_trits (as_trits s) = n"
proof -
  from assms have "\<bar>n\<bar> \<le> max_magnitude (3 * k)"
    by (simp add: max_magnitude_eq)
  from trits_from_int_fits [OF this] obtain ts where
    ts: "trits_from_int n (3 * k) = Inr ts" "length ts = 3 * k" "int_from_trits ts = n"
    by blast
  then show ?thesis
    by (simp add: bind_result_def length_from_trits as_trits_from_trits)
qed

lemma encode_Inr_iff:
  "bind_result (trits_from_int n (3 * k)) (\<lambda>ts. Inr (from_trits ts)) = Inr s
     \<longleftrightarrow> length s = k \<and> int_from_trits (as_trits s) = n"
proof
  assume "bind_result (trits_from_int n (3 * k)) (\<lambda>ts. Inr (from_trits ts)) = Inr s"
  then obtain ts where ts: "trits_from_int n (3 * k) = Inr ts" and s: "s = from_trits ts"
    by (auto simp: bind_result_def split: sum.splits)
  from trits_from_int_Inr [OF ts] have "length ts = 3 * k" "int_from_trits ts = n"
    by simp_all
  with s show "length s = k \<and> int_from_trits (as_trits s) = n"
    by (simp add: length_from_trits as_trits_from_trits)
next
  assume a: "length s = k \<and> int_from_trits (as_trits s) = n"
  then have "trits_from_int n (3 * k) = Inr (as_trits s)"
    using trits_from_int_int_from_trits [of "as_trits s"] by (simp add: length_as_trits)
  then show "bind_result (trits_from_int n (3 * k)) (\<lambda>ts. Inr (from_trits ts)) = Inr s"
    by (simp add: bind_result_def from_trits_as_trits)
qed

lemma field_encodings:
  "value_as_trytes t = Inr v \<longleftrightarrow> length v = 27 \<and> int_from_trits (as_trits v) = value t"
  "timestamp_as_trytes t = Inr ts \<longleftrightarrow> length ts = 9 \<and> int_from_trits (as_trits ts) = timestamp t"
  "current_index_as_trytes t = Inr ci
     \<longleftrightarrow> length ci = 9 \<and> int_from_trits (as_trits ci) = current_index t"
  "last_index_as_trytes t = Inr li \<longleftrightarrow> length li = 9 \<and> int_from_trits (as_trits li) = last_index t"
  using encode_Inr_iff [of "value t" 27 v] encode_Inr_iff [of "timestamp t" 9 ts]
    encode_Inr_iff [of "current_index t" 9 ci] encode_Inr_iff [of "last_index t" 9 li]
  by (simp_all add: value_as_trytes_def timestamp_as_trytes_def current_index_as_trytes_def
      last_index_as_trytes_def)

lemma payload_Inr_iff:
  "get_signature_validation_trytes B t = Inr p \<longleftrightarrow>
     (\<exists>v ts ci li.
        value_as_trytes t = Inr v \<and> timestamp_as_trytes t = Inr ts
        \<and> current_index_as_trytes t = Inr ci \<and> last_index_as_trytes t = Inr li
        \<and> p = Address.address (Transaction.address t) @ v @ legacy_tag B t @ ts @ ci @ li)"
  by (cases "value_as_trytes t"; cases "timestamp_as_trytes t";
      cases "current_index_as_trytes t"; cases "last_index_as_trytes t")
    (auto simp: get_signature_validation_trytes_def bind_result_def)

text \<open>
  C4. For every transaction, the signature validation payload is returned as \<open>p\<close>
  exactly when \<open>p\<close> is the concatenation, in this order and with nothing else, of the
  address, a 27-tryte encoding of the value, the legacy tag, and 9-tryte encodings of
  the timestamp, the current index and the last index. A payload is returned whenever
  the value fits 81 trits and the other three numbers fit 27 trits.
\<close>

theorem signature_validation_payload:
  "(get_signature_validation_trytes B t = Inr p \<longleftrightarrow>
      (\<exists>v ts ci li.
         p = Address.address (Transaction.address t) @ v @ legacy_tag B t @ ts @ ci @ li
         \<and> length v = 27 \<and> int_from_trits (as_trits v) = value t
         \<and> length ts = 9 \<and> int_from_trits (as_trits ts) = timestamp t
         \<and> length ci = 9 \<and> int_from_trits (as_trits ci) = current_index t
         \<and> length li = 9 \<and> int_from_trits (as_trits li) = last_index t))
   \<and> (\<bar>value t\<bar> \<le> (3 ^ 81 - 1) div 2 \<and> \<bar>timestamp t\<bar> \<le> (3 ^ 27 - 1) div 2
        \<and> \<bar>current_index t\<bar> \<le> (3 ^ 27 - 1) div 2 \<and> \<bar>last_index t\<bar> \<le> (3 ^ 27 - 1) div 2
      \<longrightarrow> (\<exists>q. get_signature_validation_trytes B t = Inr q))"
proof (intro conjI impI)
  show "get_signature_validation_trytes B t = Inr p \<longleftrightarrow>
      (\<exists>v ts ci li.
         p = Address.address (Transaction.address t) @ v @ legacy_tag B t @ ts @ ci @ li
         \<and> length v = 27 \<and> int_from_trits (as_trits v) = value t
         \<and> length ts = 9 \<and> int_from_trits (as_trits ts) = timestamp t
         \<and> length ci = 9 \<and> int_from_trits (as_trits ci) = current_index t
         \<and> length li = 9 \<and> int_from_trits (as_trits li) = last_index t)"
    unfolding payload_Inr_iff field_encodings by blast
next
  assume a: "\<bar>value t\<bar> \<le> (3 ^ 81 - 1) div 2 \<and> \<bar>timestamp t\<bar> \<le> (3 ^ 27 - 1) div 2
        \<and> \<bar>current_index t\<bar> \<le> (3 ^ 27 - 1) div 2 \<and> \<bar>last_index t\<bar> \<le> (3 ^ 27 - 1) div 2"
  from encode_fits [of "value t" 27] a obtain v where
    v: "value_as_trytes t = Inr v"
    by (auto simp: value_as_trytes_def)
  from encode_fits [of "timestamp t" 9] a obtain ts where
    ts: "timestamp_as_trytes t = Inr ts"
    by (auto simp: timestamp_as_trytes_def)
  from encode_fits [of "current_index t" 9] a obtain ci where
    ci: "current_index_as_trytes t = Inr ci"
    by (auto simp: current_index_as_trytes_def)
  from encode_fits [of "last_index t" 9] a obtain li where
    li: "last_index_as_trytes t = Inr li"
    by (auto simp: last_index_as_trytes_def)
  show "\<exists>q. get_signature_validation_trytes B t = Inr q"
    unfolding payload_Inr_iff using v ts ci li by blast
qed

theorem signature_validation_payload_witness:
  "\<bar>value (example_transaction tryteA 5 0 tryteA)\<bar> \<le> (3 ^ 81 - 1) div 2
   \<and> (\<exists>v ts ci li.
        get_signature_validation_trytes bool_of_trytes (example_transaction tryteA 5 0 tryteA) =
          Inr (replicate 81 tryteA @ v @ replicate 27 tryte9 @ ts @ ci @ li)
        \<and> length v = 27 \<and> int_from_trits (as_trits v) = 5
        \<and> length ts = 9 \<and> length ci = 9 \<and> length li = 9)"
proof -
  have f: "value (example_transaction tryteA 5 0 tryteA) = 5"
    "timestamp (example_transaction tryteA 5 0 tryteA) = 0"
    "current_index (example_transaction tryteA 5 0 tryteA) = 0"
    "last_index (example_transaction tryteA 5 0 tryteA) = 4"
    "Address.address (Transaction.address (example_transaction tryteA 5 0 tryteA)) = replicate 81 tryteA"
    "legacy_tag bool_of_trytes (example_transaction tryteA 5 0 tryteA) = replicate 27 tryte9"
    by (simp_all add: example_transaction_def Transaction_init_def legacy_tag_def)
  have h: "\<bar>value (example_transaction tryteA 5 0 tryteA)\<bar> \<le> (3 ^ 81 - 1) div 2"
    "\<bar>timestamp (example_transaction tryteA 5 0 tryteA)\<bar> \<le> (3 ^ 27 - 1) div 2"
    "\<bar>current_index (example_transaction tryteA 5 0 tryteA)\<bar> \<le> (3 ^ 27 - 1) div 2"
    "\<bar>last_index (example_transaction tryteA 5 0 tryteA)\<bar> \<le> (3 ^ 27 - 1) div 2"
    unfolding f by simp_all
  from signature_validation_payload
    [of bool_of_trytes "example_transaction tryteA 5 0 tryteA", THEN conjunct2] h
  obtain q where
    q: "get_signature_validation_trytes bool_of_trytes (example_transaction tryteA 5 0 tryteA)
        = Inr q"
    by blast
  from signature_validation_payload
    [of bool_of_trytes "example_transaction tryteA 5 0 tryteA" q, THEN conjunct1] q
  obtain v ts ci li where
    "q = Address.address (Transaction.address (example_transaction tryteA 5 0 tryteA)) @ v
         @ legacy_tag bool_of_trytes (example_transaction tryteA 5 0 tryteA) @ ts @ ci @ li"
    "length v = 27" "int_from_trits (as_trits v) = value (example_transaction tryteA 5 0 tryteA)"
    "length ts = 9" "length ci = 9" "length li = 9"
    by blast
  with q h(1) show ?thesis
    unfolding f by blast
qed

section \<open>Messages\<close>

lemma get_messages_loop_append:
  "get_messages_loop D B errors de (xs @ ys) acc =
     bind_result (get_messages_loop D B errors de xs acc)
       (\<lambda>ms. get_messages_loop D B errors de ys ms)"
proof (induction xs arbitrary: acc)
  case Nil
  show ?case by (simp add: bind_result_def)
next
  case (Cons g xs)
  show ?case
  proof (cases g)
    case Nil
    then show ?thesis by (simp add: bind_result_def)
  next
    case g: (Cons first_txn more)
    have bind_simps: "bind_result (Inl e) f = Inl e" "bind_result (Inr x) f = f x"
      for e :: error and x :: "string list" and f :: "string list \<Rightarrow> error + string list"
      by (simp_all add: bind_result_def)
    show ?thesis
    proof (cases "D de (message_trytes g)")
      case (Inl e)
      then show ?thesis
        using g Cons.IH by (auto simp: bind_simps)
    next
      case (Inr m)
      then show ?thesis
        using g Cons.IH by (auto simp: bind_simps)
    qed
  qed
qed

lemma get_messages_loop_skip:
  assumes "g \<noteq> []" and "value (hd g) < 0 \<or> \<not> B (message_trytes g)"
  shows "get_messages_loop D B errors de (g # gs) acc = get_messages_loop D B errors de gs acc"
  using assms by (cases g) auto

lemma get_messages_loop_decoded:
  assumes "g \<noteq> []" and "0 \<le> value (hd g)" and "B (message_trytes g)"
    and "D de (message_trytes g) = Inr m"
  shows "get_messages_loop D B errors de (g # gs) acc = get_messages_loop D B errors de gs (acc @ [m])"
  using assms by (cases g) auto

lemma get_messages_loop_failed:
  assumes "g \<noteq> []" and "0 \<le> value (hd g)" and "B (message_trytes g)"
    and "D de (message_trytes g) = Inl e"
  shows "get_messages_loop D B errors de (g # gs) acc =
           (if decode_failure e \<and> errors = ''drop'' then get_messages_loop D B errors de gs acc
            else Inl e)"
  using assms by (cases g) auto

lemma get_messages_loop_drop_no_decode_failure:
  "get_messages_loop D B ''drop'' de gs acc = Inl e \<Longrightarrow> \<not> decode_failure e"
proof (induction gs arbitrary: acc)
  case Nil
  then show ?case by simp
next
  case (Cons g gs)
  show ?case
  proof (cases g)
    case Nil
    with Cons.prems show ?thesis by (auto simp: decode_failure_def)
  next
    case c: (Cons first_txn more)
    with Cons.prems Cons.IH show ?thesis
      by (auto split: if_splits sum.splits)
  qed
qed

lemma group_transactions_nonempty:
  "g \<in> set (group_transactions b) \<Longrightarrow> g \<noteq> []"
  using group_transactions_invariant [of b] by (auto simp: same_address_def)

text \<open>
  C5. For every bundle and every error policy, \<open>get_messages\<close> processes the address
  groups in order: its result is that of the loop over the groups before \<open>g\<close>,
  continued over \<open>g\<close> and the groups after it. A group whose first transaction has a
  negative value is skipped: the result is that of the loop without the group. When the
  loop reaches a group that is not skipped, whose buffer is true and whose decoding
  raises one of the two caught exceptions, then under \<open>drop\<close> the group is omitted and
  the loop continues, under \<open>strict\<close> the exception is raised, and the exception is
  the result exactly when the policy is not \<open>drop\<close>.
\<close>

theorem get_messages_policy:
  assumes "group_transactions b = pre @ g # post"
    and "de = (if errors = ''drop'' then ''strict'' else errors)"
  shows "get_messages D B errors b =
           bind_result (get_messages_loop D B errors de pre [])
             (\<lambda>ms. get_messages_loop D B errors de (g # post) ms)
       \<and> (value (hd g) < 0 \<longrightarrow>
            get_messages D B errors b = get_messages_loop D B errors de (pre @ post) [])
       \<and> (\<forall>ms e. get_messages_loop D B errors de pre [] = Inr ms
                  \<and> 0 \<le> value (hd g) \<and> B (message_trytes g)
                  \<and> D de (message_trytes g) = Inl e \<and> decode_failure e \<longrightarrow>
            (errors = ''drop'' \<longrightarrow>
               get_messages D B errors b = get_messages_loop D B errors de post ms)
            \<and> (errors = ''strict'' \<longrightarrow> get_messages D B errors b = Inl e)
            \<and> (get_messages D B errors b = Inl e \<longleftrightarrow> errors \<noteq> ''drop''))"
proof -
  have gm: "get_messages D B errors b = get_messages_loop D B errors de (pre @ g # post) []"
    using assms by (simp add: get_messages_def)
  have ne: "g \<noteq> []"
    using group_transactions_nonempty [of g b] assms(1) by simp
  have order: "get_messages D B errors b =
           bind_result (get_messages_loop D B errors de pre [])
             (\<lambda>ms. get_messages_loop D B errors de (g # post) ms)"
    unfolding gm by (rule get_messages_loop_append)
  have skip: "get_messages D B errors b = get_messages_loop D B errors de (pre @ post) []"
    if "value (hd g) < 0"
  proof -
    have "get_messages_loop D B errors de (g # post) = get_messages_loop D B errors de post"
    proof (rule ext)
      fix ms
      show "get_messages_loop D B errors de (g # post) ms = get_messages_loop D B errors de post ms"
        by (rule get_messages_loop_skip [OF ne]) (simp add: that)
    qed
    then show ?thesis
      unfolding order by (simp only: get_messages_loop_append)
  qed
  have fail: "(errors = ''drop'' \<longrightarrow>
               get_messages D B errors b = get_messages_loop D B errors de post ms)
            \<and> (errors = ''strict'' \<longrightarrow> get_messages D B errors b = Inl e)
            \<and> (get_messages D B errors b = Inl e \<longleftrightarrow> errors \<noteq> ''drop'')"
    if h: "get_messages_loop D B errors de pre [] = Inr ms" "0 \<le> value (hd g)"
      "B (message_trytes g)" "D de (message_trytes g) = Inl e" "decode_failure e"
    for ms e
  proof -
    have r: "get_messages D B errors b =
        (if decode_failure e \<and> errors = ''drop'' then get_messages_loop D B errors de post ms
         else Inl e)"
      unfolding order h(1)
      using get_messages_loop_failed [of g B D de e errors post ms] ne h(2,3,4)
      by (simp add: bind_result_def)
    have "get_messages_loop D B ''drop'' de post ms \<noteq> Inl e"
      using get_messages_loop_drop_no_decode_failure [of D B de post ms e] h(5) by blast
    with r h(5) show ?thesis by auto
  qed
  from order skip fail show ?thesis by blast
qed

subsection \<open>Messages of the example bundle\<close>

lemma example_groups_named:
  "group_transactions example_bundle = [message_group, input_group, garbled_group, blank_group]"
  by (simp add: example_groups message_group_def input_group_def garbled_group_def blank_group_def)

lemma example_message_trytes:
  "message_trytes message_group = tryteA # replicate 2186 tryte9 @ tryte9 # replicate 2186 tryte9"
  "message_trytes input_group = tryteA # replicate 2186 tryte9"
  "message_trytes garbled_group = tryteZ # replicate 2186 tryte9"
  "message_trytes blank_group = []"
  by (simp_all add: message_trytes_def message_group_def input_group_def garbled_group_def
      blank_group_def example_fields)

lemma example_values:
  "message_group \<noteq> []" "input_group \<noteq> []" "garbled_group \<noteq> []" "blank_group \<noteq> []"
  "value (hd message_group) = 5" "value (hd input_group) = - 5"
  "value (hd garbled_group) = 0" "value (hd blank_group) = 0"
  by (simp_all add: message_group_def input_group_def garbled_group_def blank_group_def
      example_fields)

lemma example_bools:
  "bool_of_trytes (message_trytes message_group)"
  "bool_of_trytes (message_trytes garbled_group)"
  "\<not> bool_of_trytes (message_trytes blank_group)"
  by (simp_all add: example_message_trytes bool_of_trytes_def)

lemma example_decoded:
  "example_decode errors (message_trytes message_group) = Inr ''A''"
  "example_decode ''strict'' (message_trytes garbled_group) = Inl TrytesDecodeError"
  "example_decode ''replace'' (message_trytes garbled_group) = Inr ''?''"
  "example_decode errors (message_trytes blank_group) = Inr []"
  by (simp_all add: example_message_trytes example_decode_def trytes_distinct)

lemma example_prefix:
  "get_messages_loop example_decode bool_of_trytes errors de [message_group, input_group] []
     = Inr [''A'']"
proof -
  have "get_messages_loop example_decode bool_of_trytes errors de [message_group, input_group] []
        = get_messages_loop example_decode bool_of_trytes errors de [input_group] ([] @ [''A''])"
    by (rule get_messages_loop_decoded) (simp_all add: example_values example_bools example_decoded)
  also have "\<dots> = get_messages_loop example_decode bool_of_trytes errors de [] ([] @ [''A''])"
    by (rule get_messages_loop_skip) (simp_all add: example_values)
  finally show ?thesis by simp
qed

lemma example_suffix:
  "get_messages_loop example_decode bool_of_trytes errors de [blank_group] ms = Inr ms"
proof -
  have "get_messages_loop example_decode bool_of_trytes errors de [blank_group] ms
        = get_messages_loop example_decode bool_of_trytes errors de [] ms"
    by (rule get_messages_loop_skip) (simp_all add: example_values example_bools)
  then show ?thesis by simp
qed

theorem get_messages_policy_witness:
  "group_transactions example_bundle = [message_group] @ input_group # [garbled_group, blank_group]
   \<and> value (hd input_group) < 0
   \<and> get_messages example_decode bool_of_trytes ''replace'' example_bundle
       = get_messages_loop example_decode bool_of_trytes ''replace'' ''replace''
           ([message_group] @ [garbled_group, blank_group]) []
   \<and> group_transactions example_bundle = [message_group, input_group] @ garbled_group # [blank_group]
   \<and> get_messages_loop example_decode bool_of_trytes ''drop'' ''strict''
         [message_group, input_group] [] = Inr [''A'']
   \<and> 0 \<le> value (hd garbled_group)
   \<and> bool_of_trytes (message_trytes garbled_group)
   \<and> example_decode ''strict'' (message_trytes garbled_group) = Inl TrytesDecodeError
   \<and> decode_failure TrytesDecodeError
   \<and> get_messages example_decode bool_of_trytes ''drop'' example_bundle = Inr [''A'']
   \<and> get_messages example_decode bool_of_trytes ''strict'' example_bundle = Inl TrytesDecodeError"
proof -
  have g1: "group_transactions example_bundle
            = [message_group] @ input_group # [garbled_group, blank_group]"
    and g2: "group_transactions example_bundle
            = [message_group, input_group] @ garbled_group # [blank_group]"
    by (simp_all add: example_groups_named)
  have neg: "value (hd input_group) < 0"
    by (simp add: example_values)
  have h: "0 \<le> value (hd garbled_group)"
    "bool_of_trytes (message_trytes garbled_group)"
    "example_decode ''strict'' (message_trytes garbled_group) = Inl TrytesDecodeError"
    "decode_failure TrytesDecodeError"
    by (simp_all add: example_values example_bools example_decoded decode_failure_def)
  have pre: "get_messages_loop example_decode bool_of_trytes ''drop'' ''strict''
         [message_group, input_group] [] = Inr [''A'']"
    and pre': "get_messages_loop example_decode bool_of_trytes ''strict'' ''strict''
         [message_group, input_group] [] = Inr [''A'']"
    by (rule example_prefix)+
  have de1: "''replace'' = (if ''replace'' = ''drop'' then ''strict'' else ''replace'')"
    and de2: "''strict'' = (if ''drop'' = ''drop'' then ''strict'' else ''drop'')"
    and de3: "''strict'' = (if ''strict'' = ''drop'' then ''strict'' else ''strict'')"
    by simp_all
  note t1 = get_messages_policy [OF g1 de1, of example_decode bool_of_trytes]
  note t2 = get_messages_policy [OF g2 de2, of example_decode bool_of_trytes]
  note t3 = get_messages_policy [OF g2 de3, of example_decode bool_of_trytes]
  from t1 neg have skip: "get_messages example_decode bool_of_trytes ''replace'' example_bundle
       = get_messages_loop example_decode bool_of_trytes ''replace'' ''replace''
           ([message_group] @ [garbled_group, blank_group]) []"
    by blast
  from t2 h pre
  have "get_messages example_decode bool_of_trytes ''drop'' example_bundle
        = get_messages_loop example_decode bool_of_trytes ''drop'' ''strict'' [blank_group] [''A'']"
    by blast
  then have drop: "get_messages example_decode bool_of_trytes ''drop'' example_bundle = Inr [''A'']"
    by (simp only: example_suffix)
  from t3 h pre'
  have strict: "get_messages example_decode bool_of_trytes ''strict'' example_bundle
         = Inl TrytesDecodeError"
    by blast
  from g1 neg skip g2 pre h drop strict
  show ?thesis by (intro conjI) assumption+
qed

subsection \<open>The policy \<open>drop\<close>\<close>







end
